theory Spec2Isabelle
  imports Main
begin

section \<open>Data model of \<open>lib/suppressions.cpp\<close>\<close>

text \<open>
  A \<open>std::string\<close> is a \<open>string\<close> (a list of bytes), a C \<open>int\<close> an \<open>int\<close> (the places where
  the 32-bit range matters clamp or truncate explicitly).

  \<open>Suppressions::Suppression\<close> has the fields the source reads and writes: \<open>errorId\<close>,
  \<open>fileName\<close>, \<open>lineNumber\<close>, \<open>symbolName\<close> and the mutable flag \<open>matched\<close>.
  \<open>Suppressions::ErrorMessage\<close> is the diagnostic handed to the matcher.
\<close>

record Suppression =
  errorId :: string
  fileName :: string
  lineNumber :: int
  symbolName :: string
  matched :: bool

record ErrorMessage =
  errorId :: string
  fileName :: string
  lineNumber :: int
  symbolNames :: string

text \<open>
  Modelled from the spec: the default constructor of \<open>Suppression\<close> (declared in
  \<open>suppressions.h\<close>, which is not part of the sources at hand). Every constraint is
  "any" (the line number is 0) and \<open>matched\<close> is initially false.
\<close>

definition default_Suppression :: Suppression where
  "default_Suppression =
     \<lparr>Suppression.errorId = [], Suppression.fileName = [], Suppression.lineNumber = 0,
      symbolName = [], matched = False\<rparr>"

definition newline :: char where
  "newline = CHR 0x0A"

section \<open>\<open>std::string::find\<close>\<close>

text \<open>
  \<open>hay.find(needle)\<close>: the least position at which \<open>needle\<close> occurs in \<open>hay\<close>, or \<open>npos\<close>
  (here \<open>None\<close>). \<open>starts_with\<close> compares the needle with the text at the current position.
\<close>

fun starts_with :: "string \<Rightarrow> string \<Rightarrow> bool" where
  "starts_with hay [] = True"
| "starts_with [] (c # needle) = False"
| "starts_with (h # hay) (c # needle) = (h = c \<and> starts_with hay needle)"

fun find_from :: "nat \<Rightarrow> string \<Rightarrow> string \<Rightarrow> nat option" where
  "find_from i [] needle = (if needle = [] then Some i else None)"
| "find_from i (h # hay) needle =
     (if starts_with (h # hay) needle then Some i else find_from (Suc i) hay needle)"

definition string_find :: "string \<Rightarrow> string \<Rightarrow> nat option" where
  "string_find hay needle = find_from 0 hay needle"

section \<open>\<open>Suppressions::Suppression::isMatch\<close>\<close>

text \<open>
  The method mutates \<open>matched\<close> of the rule it is called on, so the model returns the
  answer together with the rule as it is afterwards. The four tests are in the source's
  order; each failing test returns false and leaves the rule as it was.
\<close>

definition isMatch :: "Suppression \<Rightarrow> ErrorMessage \<Rightarrow> bool \<times> Suppression" where
  "isMatch s errmsg =
     (if Suppression.errorId s \<noteq> [] \<and> Suppression.errorId s \<noteq> ErrorMessage.errorId errmsg
        then (False, s)
      else if Suppression.fileName s \<noteq> [] \<and> Suppression.fileName s \<noteq> ErrorMessage.fileName errmsg
        then (False, s)
      else if Suppression.lineNumber s > 0 \<and> Suppression.lineNumber s \<noteq> ErrorMessage.lineNumber errmsg
        then (False, s)
      else if symbolName s \<noteq> [] \<and> string_find (symbolNames errmsg) (symbolName s @ [newline]) = None
        then (False, s)
      else (True, s\<lparr>matched := True\<rparr>))"

section \<open>\<open>Suppressions::isSuppressed\<close> and \<open>Suppressions::isSuppressedLocal\<close>\<close>

text \<open>
  Both loop over \<open>_suppressions\<close> by reference and return at the first rule whose
  \<open>isMatch\<close> answers true. The model returns the answer and the list afterwards.
\<close>

fun isSuppressed :: "ErrorMessage \<Rightarrow> Suppression list \<Rightarrow> bool \<times> Suppression list" where
  "isSuppressed errmsg [] = (False, [])"
| "isSuppressed errmsg (s # rest) =
     (case isMatch s errmsg of
        (True, s') \<Rightarrow> (True, s' # rest)
      | (False, s') \<Rightarrow>
          (case isSuppressed errmsg rest of (r, rest') \<Rightarrow> (r, s' # rest')))"

fun isSuppressedLocal :: "ErrorMessage \<Rightarrow> Suppression list \<Rightarrow> bool \<times> Suppression list" where
  "isSuppressedLocal errmsg [] = (False, [])"
| "isSuppressedLocal errmsg (s # rest) =
     (case isMatch s errmsg of
        (True, s') \<Rightarrow> (True, s' # rest)
      | (False, s') \<Rightarrow>
          (case isSuppressedLocal errmsg rest of (r, rest') \<Rightarrow> (r, s' # rest')))"

section \<open>\<open><cctype>\<close> in the "C" locale\<close>

text \<open>
  \<open>char\<close> is signed on the platforms the program is built for, so the bytes from 128 on
  are the negative characters. The source never changes the locale, so \<open>std::isdigit\<close>,
  \<open>std::isalnum\<close> and \<open>std::isspace\<close> are those of the "C" locale.
\<close>

definition char_negative :: "char \<Rightarrow> bool" where
  "char_negative c = (128 \<le> (of_char c :: nat))"

definition isdigit :: "char \<Rightarrow> bool" where
  "isdigit c = (48 \<le> (of_char c :: nat) \<and> (of_char c :: nat) \<le> 57)"

definition isalpha :: "char \<Rightarrow> bool" where
  "isalpha c = ((65 \<le> (of_char c :: nat) \<and> (of_char c :: nat) \<le> 90) \<or>
                (97 \<le> (of_char c :: nat) \<and> (of_char c :: nat) \<le> 122))"

definition isalnum :: "char \<Rightarrow> bool" where
  "isalnum c = (isalpha c \<or> isdigit c)"

definition isspace :: "char \<Rightarrow> bool" where
  "isspace c = ((of_char c :: nat) = 32 \<or> (9 \<le> (of_char c :: nat) \<and> (of_char c :: nat) \<le> 13))"

section \<open>\<open>Suppressions::addSuppression\<close>\<close>

text \<open>
  The validation loop of the source, position by position: \<open>errorId_loop pos cs\<close> runs
  the loop body on the characters \<open>cs\<close> that start at index \<open>pos\<close> and answers whether the
  loop ran to its end without returning an error.
\<close>

fun errorId_loop :: "nat \<Rightarrow> string \<Rightarrow> bool" where
  "errorId_loop pos [] = True"
| "errorId_loop pos (c # cs) =
     (if char_negative c \<or> (\<not> isalnum c \<and> c \<noteq> CHR ''_'') then False
      else if pos = 0 \<and> isdigit c then False
      else errorId_loop (Suc pos) cs)"

text \<open>
  The member \<open>_suppressions\<close> is passed in and returned: the result is the returned
  message and the list afterwards (\<open>push_back\<close> appends at the end).
\<close>

definition addSuppression :: "Suppression \<Rightarrow> Suppression list \<Rightarrow> string \<times> Suppression list" where
  "addSuppression suppression suppressions =
     (if Suppression.errorId suppression = [] then
        (''Failed to add suppression. No id.'', suppressions)
      else if Suppression.errorId suppression \<noteq> ''*'' \<and>
              \<not> errorId_loop 0 (Suppression.errorId suppression) then
        (''Failed to add suppression. Invalid id '' @ [CHR 0x22] @
           Suppression.errorId suppression @ [CHR 0x22], suppressions)
      else ([], suppressions @ [suppression]))"

section \<open>The standard stream operations \<open>addSuppressionLine\<close> uses\<close>

text \<open>
  An \<open>std::istringstream\<close> is the text not yet read and whether the stream is still good
  (neither \<open>eofbit\<close> nor \<open>failbit\<close> set).

  \<open>std::getline(is, str, delim)\<close>: on a stream that is not good it fails and leaves \<open>str\<close>
  alone. Otherwise it clears \<open>str\<close> and reads up to the delimiter, which it consumes and
  drops; reaching the end of the text sets \<open>eofbit\<close>, and having extracted nothing at all
  sets \<open>failbit\<close>, which makes the call answer false.
\<close>

record istringstream =
  unread :: string
  good :: bool

definition getline :: "istringstream \<Rightarrow> string \<Rightarrow> char \<Rightarrow> bool \<times> string \<times> istringstream" where
  "getline is str delim =
     (if \<not> good is then (False, str, is)
      else if unread is = [] then (False, [], is\<lparr>good := False\<rparr>)
      else if delim \<in> set (unread is) then
        (True, takeWhile (\<lambda>c. c \<noteq> delim) (unread is),
         is\<lparr>unread := tl (dropWhile (\<lambda>c. c \<noteq> delim) (unread is))\<rparr>)
      else (True, unread is, is\<lparr>unread := [], good := False\<rparr>))"

text \<open>
  Reading an integer in decimal: leading white space is skipped, one sign is accepted, and
  the digits that follow are accumulated; the first character that is no digit ends the
  number and stays unread. No digit at all is no number.
\<close>

fun digits_value :: "int \<Rightarrow> string \<Rightarrow> int" where
  "digits_value acc [] = acc"
| "digits_value acc (c # cs) =
     (if isdigit c then digits_value (acc * 10 + (int (of_char c) - 48)) cs else acc)"

definition read_integer :: "string \<Rightarrow> int option" where
  "read_integer s =
     (let s1 = dropWhile isspace s;
          neg = (case s1 of [] \<Rightarrow> False | c # _ \<Rightarrow> c = CHR ''-'');
          s2 = (case s1 of [] \<Rightarrow> [] | c # r \<Rightarrow> if c = CHR ''-'' \<or> c = CHR ''+'' then r else s1)
      in case s2 of
           [] \<Rightarrow> None
         | c # _ \<Rightarrow> if isdigit c then Some ((if neg then - 1 else 1) * digits_value 0 s2) else None)"

definition INT_MAX :: int where
  "INT_MAX = 2147483647"

definition INT_MIN :: int where
  "INT_MIN = - 2147483648"

text \<open>
  \<open>istr >> n\<close> for an \<open>int\<close> \<open>n\<close>, on a fresh stream over \<open>s\<close>, as C++11 defines it (the
  source is C++11: it uses range-based \<open>for\<close>): the value stored in \<open>n\<close> and whether the
  extraction failed (\<open>failbit\<close>). When no number can be read, 0 is stored; when the number
  does not fit an \<open>int\<close>, the nearest bound is stored; both set \<open>failbit\<close>. No exception is
  thrown, the stream's exception mask being empty, so the \<open>catch\<close> of the source is
  never entered.
\<close>

definition istream_extract_int :: "string \<Rightarrow> int \<times> bool" where
  "istream_extract_int s =
     (case read_integer s of
        None \<Rightarrow> (0, True)
      | Some v \<Rightarrow>
          if v < INT_MIN then (INT_MIN, True)
          else if INT_MAX < v then (INT_MAX, True)
          else (v, False))"

text \<open>
  \<open>s.rfind(c)\<close> is the last position of \<open>c\<close> in \<open>s\<close>, and \<open>s.find(c, pos)\<close> the first
  position of \<open>c\<close> at or after \<open>pos\<close>; \<open>None\<close> is \<open>npos\<close>.
\<close>

definition rfind_char :: "string \<Rightarrow> char \<Rightarrow> nat option" where
  "rfind_char s c =
     (if c \<in> set s then Some (length s - Suc (length (takeWhile (\<lambda>x. x \<noteq> c) (rev s)))) else None)"

definition find_char :: "string \<Rightarrow> char \<Rightarrow> nat \<Rightarrow> nat option" where
  "find_char s c pos =
     (if c \<in> set (drop pos s) then Some (pos + length (takeWhile (\<lambda>x. x \<noteq> c) (drop pos s)))
      else None)"

text \<open>
  Modelled from the spec: \<open>Path::fromNativeSeparators\<close> (declared in \<open>path.h\<close>, which is
  not part of the sources at hand) brings the path separators to the canonical form: every
  backslash becomes a slash.
\<close>

definition fromNativeSeparators :: "string \<Rightarrow> string" where
  "fromNativeSeparators path = map (\<lambda>c. if c = CHR 0x5C then CHR ''/'' else c) path"

section \<open>\<open>Suppressions::addSuppressionLine\<close>\<close>

text \<open>
  \<open>line_number_part\<close> is the body of the inner \<open>if\<close> of the source: it is entered once
  \<open>fileName\<close> has been read, looks for the last colon and, when no dot follows it, extracts
  the line number and cuts \<open>fileName\<close> at the colon if that number is positive.
\<close>

definition line_number_part :: "Suppression \<Rightarrow> Suppression" where
  "line_number_part suppression =
     (case rfind_char (Suppression.fileName suppression) (CHR '':'') of
        None \<Rightarrow> suppression
      | Some pos \<Rightarrow>
          if find_char (Suppression.fileName suppression) (CHR ''.'') pos = None then
            (let s1 = suppression\<lparr>Suppression.lineNumber :=
                        fst (istream_extract_int (drop (pos + 1) (Suppression.fileName suppression)))\<rparr>
             in if Suppression.lineNumber s1 > 0
                then s1\<lparr>Suppression.fileName := take pos (Suppression.fileName s1)\<rparr>
                else s1)
          else suppression)"

definition addSuppressionLine :: "string \<Rightarrow> Suppression list \<Rightarrow> string \<times> Suppression list" where
  "addSuppressionLine line suppressions =
     (let lineStream = \<lparr>unread = line, good = True\<rparr>;
          suppression = default_Suppression;
          (ok1, id, lineStream1) = getline lineStream (Suppression.errorId suppression) (CHR '':'');
          suppression1 = suppression\<lparr>Suppression.errorId := id\<rparr>;
          suppression2 =
            (if ok1 then
               (let (ok2, file, lineStream2) =
                      getline lineStream1 (Suppression.fileName suppression1) newline;
                    suppression1' = suppression1\<lparr>Suppression.fileName := file\<rparr>
                in if ok2 then line_number_part suppression1' else suppression1')
             else suppression1);
          suppression3 = suppression2\<lparr>Suppression.fileName :=
                           fromNativeSeparators (Suppression.fileName suppression2)\<rparr>
      in addSuppression suppression3 suppressions)"

section \<open>\<open>matchglob\<close>\<close>

text \<open>
  The matcher walks two C strings. \<open>c_str\<close> is what the pointer returned by
  \<open>std::string::c_str\<close> shows: the bytes up to the first NUL. A pointer into such a string
  is the text from the pointer on, so the empty list is a pointer at the terminator,
  \<open>deref\<close> is \<open>*p\<close>, and \<open>tl\<close> is \<open>p++\<close> on a pointer that is not at the terminator.
\<close>

definition c_str :: "string \<Rightarrow> string" where
  "c_str s = takeWhile (\<lambda>c. c \<noteq> CHR 0x00) s"

definition deref :: "string \<Rightarrow> char" where
  "deref p = (case p of [] \<Rightarrow> CHR 0x00 | c # _ \<Rightarrow> c)"

text \<open>The loop of the \<open>'*'\<close> case: \<open>while (*n != '\0' && *n != p[1]) n++;\<close> with \<open>c\<close> for \<open>p[1]\<close>.\<close>

fun skip_until :: "char \<Rightarrow> string \<Rightarrow> string" where
  "skip_until c [] = []"
| "skip_until c (x # n) = (if x \<noteq> c then skip_until c n else x # n)"

text \<open>
  The inner \<open>while (*p != '\0' && matching)\<close>: it returns \<open>matching\<close>, both pointers and the
  backtrack stack (its top is the head of the list) as they are when the loop is left.
  A failed comparison clears \<open>matching\<close>; the \<open>p++\<close> that ends the loop body still runs.
\<close>

fun matchglob_scan ::
  "string \<Rightarrow> string \<Rightarrow> (string \<times> string) list \<Rightarrow> bool \<times> string \<times> string \<times> (string \<times> string) list"
where
  "matchglob_scan [] n backtrack = (True, [], n, backtrack)"
| "matchglob_scan (c # p) n backtrack =
     (if c = CHR ''*'' then
        (let n1 = skip_until (deref p) n;
             backtrack1 = (if deref n1 \<noteq> CHR 0x00 then (c # p, n1) # backtrack else backtrack)
         in matchglob_scan p n1 backtrack1)
      else if c = CHR ''?'' then
        (if deref n \<noteq> CHR 0x00 then matchglob_scan p (tl n) backtrack
         else (False, p, n, backtrack))
      else
        (if deref n = c then matchglob_scan p (tl n) backtrack
         else (False, p, n, backtrack)))"

text \<open>
  The outer \<open>for (;;)\<close> pops a saved pair and starts the inner loop again one character
  further in the name. That it ends is not obvious; the facts below give a quantity that
  falls with every round. A pair \<open>(bp, bn)\<close> waiting on the stack weighs
  \<open>(length bp + 1) ^ (length bn - 1)\<close>, the pointers in use weigh
  \<open>(length p + 1) ^ length n\<close>: one run of the inner loop pushes at most one pair for each
  character of the pattern, each with a name no longer than the current one, and a popped
  pair is resumed on a name that is one character shorter.
\<close>

definition pending_weight :: "(string \<times> string) list \<Rightarrow> nat" where
  "pending_weight backtrack = (\<Sum>(bp, bn) \<leftarrow> backtrack. (length bp + 1) ^ (length bn - 1))"

lemma skip_until_length: "length (skip_until c n) \<le> length n"
  by (induction n) auto

lemma deref_nonempty: "deref n \<noteq> CHR 0x00 \<Longrightarrow> n \<noteq> []"
  by (auto simp: deref_def)

lemma matchglob_scan_pushes:
  "matchglob_scan p n bt = (m, p1, n1, bt1) \<Longrightarrow>
     \<exists>new. bt1 = new @ bt \<and> length new \<le> length p \<and>
       (\<forall>(ep, en) \<in> set new. length ep \<le> length p \<and> en \<noteq> [] \<and> length en \<le> length n)"
proof (induction p n bt arbitrary: m p1 n1 bt1 rule: matchglob_scan.induct)
  case (1 n backtrack)
  then show ?case by simp
next
  case (2 c p n backtrack)
  show ?case
  proof (cases "c = CHR ''*''")
    case star: True
    define nn where "nn = skip_until (deref p) n"
    define bb where "bb = (if deref nn \<noteq> CHR 0x00 then (c # p, nn) # backtrack else backtrack)"
    from "2.prems" star have run: "matchglob_scan p nn bb = (m, p1, n1, bt1)"
      by (cases "deref (skip_until (deref p) n) = CHR 0x00") (simp_all add: nn_def bb_def Let_def)
    from "2.IH"(1) [OF star nn_def bb_def run]
    obtain new where new: "bt1 = new @ bb" "length new \<le> length p"
      "\<forall>(ep, en) \<in> set new. length ep \<le> length p \<and> en \<noteq> [] \<and> length en \<le> length nn"
      by blast
    have nn_le: "length nn \<le> length n" by (simp add: nn_def skip_until_length)
    show ?thesis
    proof (cases "deref nn \<noteq> CHR 0x00")
      case True
      then have "nn \<noteq> []" by (rule deref_nonempty)
      with new nn_le True show ?thesis
        by (intro exI [of _ "new @ [(c # p, nn)]"]) (auto simp: bb_def)
    next
      case False
      with new nn_le show ?thesis
        by (intro exI [of _ new]) (auto simp: bb_def)
    qed
  next
    case nostar: False
    show ?thesis
    proof (cases "c = CHR ''?''")
      case q: True
      show ?thesis
      proof (cases "deref n \<noteq> CHR 0x00")
        case True
        with "2.prems" nostar q have run: "matchglob_scan p (tl n) backtrack = (m, p1, n1, bt1)"
          by simp
        from "2.IH"(2) [OF nostar q True run] obtain new where
          "bt1 = new @ backtrack" "length new \<le> length p"
          "\<forall>(ep, en) \<in> set new. length ep \<le> length p \<and> en \<noteq> [] \<and> length en \<le> length (tl n)"
          by blast
        then show ?thesis by (intro exI [of _ new]) auto
      next
        case False
        with "2.prems" nostar q show ?thesis by auto
      qed
    next
      case lit: False
      show ?thesis
      proof (cases "deref n = c")
        case True
        with "2.prems" nostar lit have run: "matchglob_scan p (tl n) backtrack = (m, p1, n1, bt1)"
          by simp
        from "2.IH"(3) [OF nostar lit True run] obtain new where
          "bt1 = new @ backtrack" "length new \<le> length p"
          "\<forall>(ep, en) \<in> set new. length ep \<le> length p \<and> en \<noteq> [] \<and> length en \<le> length (tl n)"
          by blast
        then show ?thesis by (intro exI [of _ new]) auto
      next
        case False
        with "2.prems" nostar lit show ?thesis by auto
      qed
    qed
  qed
qed

lemma pending_weight_bound:
  assumes "\<forall>(ep, en) \<in> set new. length ep \<le> a \<and> en \<noteq> [] \<and> length en \<le> b"
  shows "pending_weight new \<le> length new * (a + 1) ^ (b - 1)"
  using assms
proof (induction new)
  case Nil
  then show ?case by (simp add: pending_weight_def)
next
  case (Cons e new)
  obtain ep en where e: "e = (ep, en)" by (cases e)
  from Cons.prems e have le: "length ep \<le> a" "length en \<le> b" by auto
  have "(length ep + 1) ^ (length en - 1) \<le> (a + 1) ^ (length en - 1)"
    using le(1) by (intro power_mono) auto
  also have "\<dots> \<le> (a + 1) ^ (b - 1)"
    using le(2) by (intro power_increasing) auto
  finally have one: "(length ep + 1) ^ (length en - 1) \<le> (a + 1) ^ (b - 1)" .
  from Cons have "pending_weight new \<le> length new * (a + 1) ^ (b - 1)" by auto
  with one show ?case by (simp add: pending_weight_def e)
qed

lemma pending_weight_append: "pending_weight (xs @ ys) = pending_weight xs + pending_weight ys"
  by (simp add: pending_weight_def)

lemma matchglob_scan_weight:
  assumes "matchglob_scan p n bt = (m, p1, n1, bt1)"
  shows "pending_weight bt1 < (length p + 1) ^ length n + pending_weight bt"
proof -
  from matchglob_scan_pushes [OF assms] obtain new where new: "bt1 = new @ bt"
    "length new \<le> length p"
    "\<forall>(ep, en) \<in> set new. length ep \<le> length p \<and> en \<noteq> [] \<and> length en \<le> length n"
    by blast
  have "pending_weight new < (length p + 1) ^ length n"
  proof (cases new)
    case Nil
    then show ?thesis by (simp add: pending_weight_def)
  next
    case (Cons e rest)
    with new(3) have "n \<noteq> []" by (cases e) auto
    then obtain k where k: "length n = Suc k" by (cases n) auto
    from pending_weight_bound [OF new(3)]
    have "pending_weight new \<le> length new * (length p + 1) ^ k" by (simp add: k)
    also have "\<dots> \<le> length p * (length p + 1) ^ k" using new(2) by simp
    also have "\<dots> < (length p + 1) ^ Suc k" by simp
    finally show ?thesis by (simp add: k)
  qed
  then show ?thesis by (simp add: new(1) pending_weight_append)
qed

text \<open>
  The outer loop: success when the inner loop is left with \<open>matching\<close> still set and the
  name at its end, failure when the stack is empty, and otherwise another round from the
  popped pair with the name pointer advanced by one.
\<close>

function matchglob_loop :: "string \<Rightarrow> string \<Rightarrow> (string \<times> string) list \<Rightarrow> bool" where
  "matchglob_loop p n backtrack =
     (case matchglob_scan p n backtrack of
        (matching, p1, n1, backtrack1) \<Rightarrow>
          if matching \<and> deref n1 = CHR 0x00 then True
          else (case backtrack1 of
                  [] \<Rightarrow> False
                | (bp, bn) # rest \<Rightarrow> matchglob_loop bp (tl bn) rest))"
  by pat_completeness auto
termination
proof (relation "measure (\<lambda>(p, n, bt). (length p + 1) ^ length n + pending_weight bt)", goal_cases)
  case 1
  show ?case by simp
next
  case (2 p n backtrack matching y p1 ya n1 bt1 e rest bp bn)
  then have scan: "matchglob_scan p n backtrack = (matching, p1, n1, (bp, bn) # rest)"
    by (metis prod.inject)
  from matchglob_scan_weight [OF scan] show ?case
    by (simp add: pending_weight_def)
qed

definition matchglob :: "string \<Rightarrow> string \<Rightarrow> bool" where
  "matchglob pattern name = matchglob_loop (c_str pattern) (c_str name) []"

section \<open>\<open>Suppressions::parseXmlFile\<close>\<close>

text \<open>
  What the source sees of tinyxml2. An element has a name, the text \<open>GetText\<close> returns
  (\<open>None\<close> for the null pointer) and its child elements in document order, which is the
  order \<open>FirstChildElement\<close> and \<open>NextSiblingElement\<close> walk them in. A document, once
  \<open>LoadFile\<close> has run, is the error code it returned and what \<open>doc.FirstChildElement()\<close>
  returns: the root element, or the null pointer when the document has none (as for a
  file that could not be opened or is empty).
\<close>

datatype XMLElement =
  XMLElement (Name: string) (GetText: "string option") (ChildElements: "XMLElement list")

datatype XMLError =
    XML_SUCCESS
  | XML_ERROR_FILE_NOT_FOUND
  | XML_ERROR_FILE_COULD_NOT_BE_OPENED
  | XML_ERROR_FILE_READ_ERROR
  | XML_ERROR_EMPTY_DOCUMENT
  | XML_ERROR_PARSING

record XMLDocument =
  LoadFile :: XMLError
  FirstChildElement :: "XMLElement option"

text \<open>
  \<open>std::strcmp\<close> on texts without NUL: 0 for equal texts, otherwise the sign of the first
  difference.
\<close>

fun strcmp :: "string \<Rightarrow> string \<Rightarrow> int" where
  "strcmp [] [] = 0"
| "strcmp [] (b # bs) = - 1"
| "strcmp (a # as) [] = 1"
| "strcmp (a # as) (b # bs) =
     (if a = b then strcmp as bs
      else if (of_char a :: nat) < of_char b then - 1 else 1)"

text \<open>
  \<open>std::atoi\<close>: the integer at the start of the text, 0 when there is none. C leaves the
  result undefined when it does not fit an \<open>int\<close>; the model does what the usual
  implementation through \<open>strtol\<close> does on a 64-bit \<open>long\<close>: clamp to \<open>long\<close>, then keep the
  low 32 bits.
\<close>

definition atoi :: "string \<Rightarrow> int" where
  "atoi s =
     (case read_integer s of
        None \<Rightarrow> 0
      | Some v \<Rightarrow>
          (let l = max (- (2 ^ 63)) (min (2 ^ 63 - 1) v)
           in (l + 2 ^ 31) mod 2 ^ 32 - 2 ^ 31))"

text \<open>The inner loop, over the children \<open>e2\<close> of one child of the root.\<close>

fun parseXmlFile_fields :: "XMLElement list \<Rightarrow> Suppression \<Rightarrow> Suppression" where
  "parseXmlFile_fields [] s = s"
| "parseXmlFile_fields (e2 # siblings) s =
     (let text = (case GetText e2 of Some t \<Rightarrow> t | None \<Rightarrow> [])
      in parseXmlFile_fields siblings
           (if strcmp (Name e2) ''id'' = 0 then s\<lparr>Suppression.errorId := text\<rparr>
            else if strcmp (Name e2) ''fileName'' = 0 then s\<lparr>Suppression.fileName := text\<rparr>
            else if strcmp (Name e2) ''lineNumber'' = 0 then s\<lparr>Suppression.lineNumber := atoi text\<rparr>
            else if strcmp (Name e2) ''symbolName'' = 0 then s\<lparr>symbolName := text\<rparr>
            else s))"

text \<open>
  The outer loop, over the children \<open>e\<close> of the root. The condition is the source's
  \<open>if (std::strcmp(e->Name(), "suppress"))\<close>, true for a non-zero result. The message
  \<open>addSuppression\<close> returns is discarded, as in the source.
\<close>

fun parseXmlFile_children :: "XMLElement list \<Rightarrow> Suppression list \<Rightarrow> Suppression list" where
  "parseXmlFile_children [] suppressions = suppressions"
| "parseXmlFile_children (e # siblings) suppressions =
     parseXmlFile_children siblings
       (if strcmp (Name e) ''suppress'' \<noteq> 0 then
          snd (addSuppression (parseXmlFile_fields (ChildElements e) default_Suppression) suppressions)
        else suppressions)"

text \<open>
  \<open>rootnode->FirstChildElement()\<close> on a null \<open>rootnode\<close> is undefined behaviour; the model
  makes it a fault, so the result is either the fault or the returned message with the
  list afterwards.
\<close>

datatype fault = NullPointerDereference

definition parseXmlFile :: "XMLDocument \<Rightarrow> Suppression list \<Rightarrow> fault + string \<times> Suppression list" where
  "parseXmlFile doc suppressions =
     (if LoadFile doc = XML_ERROR_FILE_NOT_FOUND then Inr (''File not found'', suppressions)
      else case FirstChildElement doc of
             None \<Rightarrow> Inl NullPointerDereference
           | Some rootnode \<Rightarrow>
               Inr ([], parseXmlFile_children (ChildElements rootnode) suppressions))"

section \<open>Notions of the specification\<close>

text \<open>
  The symbol list of a diagnostic is a concatenation of entries, each followed by a
  newline. \<open>symbol_entries\<close> reads the entries back: \<open>split_entries cur rest\<close> has the
  characters of the entry being read in \<open>cur\<close>, latest first. Text after the last newline
  is not terminated and so is no entry.
\<close>

fun split_entries :: "string \<Rightarrow> string \<Rightarrow> string list" where
  "split_entries cur [] = []"
| "split_entries cur (c # cs) =
     (if c = newline then rev cur # split_entries [] cs else split_entries (c # cur) cs)"

definition symbol_entries :: "string \<Rightarrow> string list" where
  "symbol_entries symbols = split_entries [] symbols"

text \<open>
  The identifiers the specification admits as \<open>errorId\<close>, \<open>[A-Za-z_][A-Za-z0-9_]*\<close>: a
  letter or an underscore, then letters, digits and underscores.
\<close>

definition ascii_letters :: string where
  "ascii_letters = ''ABCDEFGHIJKLMNOPQRSTUVWXYZabcdefghijklmnopqrstuvwxyz''"

definition ascii_digits :: string where
  "ascii_digits = ''0123456789''"

definition valid_identifier :: "string \<Rightarrow> bool" where
  "valid_identifier s =
     (case s of
        [] \<Rightarrow> False
      | c # cs \<Rightarrow>
          (c \<in> set ascii_letters \<or> c = CHR ''_'') \<and>
          list_all (\<lambda>x. x \<in> set ascii_letters \<or> x \<in> set ascii_digits \<or> x = CHR ''_'') cs)"

text \<open>
  The record the specification has \<open>parseXmlFile\<close> make of one child of the root: each
  field comes from the text of the sub-element of that name (the last one, if there are
  several; a sub-element without text gives the empty text), \<open>lineNumber\<close> through \<open>atoi\<close>,
  and a field without sub-element keeps the value it has in \<open>s\<close>.
\<close>

definition element_text :: "XMLElement \<Rightarrow> string" where
  "element_text e = (case GetText e of None \<Rightarrow> [] | Some t \<Rightarrow> t)"

definition last_text :: "string \<Rightarrow> XMLElement list \<Rightarrow> string option" where
  "last_text tag es =
     (case filter (\<lambda>e. Name e = tag) es of
        [] \<Rightarrow> None
      | x # xs \<Rightarrow> Some (element_text (last (x # xs))))"

definition populated_from :: "Suppression \<Rightarrow> XMLElement list \<Rightarrow> Suppression" where
  "populated_from s es =
     \<lparr>Suppression.errorId =
        (case last_text ''id'' es of None \<Rightarrow> Suppression.errorId s | Some t \<Rightarrow> t),
      fileName =
        (case last_text ''fileName'' es of None \<Rightarrow> Suppression.fileName s | Some t \<Rightarrow> t),
      lineNumber =
        (case last_text ''lineNumber'' es of None \<Rightarrow> Suppression.lineNumber s | Some t \<Rightarrow> atoi t),
      symbolName =
        (case last_text ''symbolName'' es of None \<Rightarrow> symbolName s | Some t \<Rightarrow> t),
      matched = matched s\<rparr>"

definition populated :: "XMLElement \<Rightarrow> Suppression" where
  "populated e = populated_from default_Suppression (ChildElements e)"

section \<open>The matcher\<close>

subsection \<open>\<open>std::string::find\<close> finds exactly the substrings\<close>

lemma starts_with_iff: "starts_with hay needle \<longleftrightarrow> (\<exists>post. hay = needle @ post)"
  by (induction hay needle rule: starts_with.induct) auto

lemma find_from_None_iff:
  "find_from i hay needle = None \<longleftrightarrow> \<not> (\<exists>pre post. hay = pre @ needle @ post)"
proof (induction hay arbitrary: i)
  case Nil
  then show ?case by auto
next
  case (Cons h hay)
  show ?case
  proof (cases "starts_with (h # hay) needle")
    case True
    then obtain post where "h # hay = needle @ post" by (auto simp: starts_with_iff)
    then have "h # hay = [] @ needle @ post" by simp
    then have "\<exists>pre post. h # hay = pre @ needle @ post" by blast
    with True show ?thesis by simp
  next
    case False
    have "(\<exists>pre post. h # hay = pre @ needle @ post) \<longleftrightarrow> (\<exists>pre post. hay = pre @ needle @ post)"
    proof
      assume "\<exists>pre post. h # hay = pre @ needle @ post"
      then obtain pre post where e: "h # hay = pre @ needle @ post" by blast
      show "\<exists>pre post. hay = pre @ needle @ post"
      proof (cases pre)
        case Nil
        with e have "starts_with (h # hay) needle" by (auto simp: starts_with_iff)
        with False show ?thesis by simp
      next
        case (Cons a pre')
        with e have "hay = pre' @ needle @ post" by simp
        then show ?thesis by blast
      qed
    next
      assume "\<exists>pre post. hay = pre @ needle @ post"
      then obtain pre post where "hay = pre @ needle @ post" by blast
      then have "h # hay = (h # pre) @ needle @ post" by simp
      then show "\<exists>pre post. h # hay = pre @ needle @ post" by blast
    qed
    with False Cons.IH [of "Suc i"] show ?thesis by simp
  qed
qed

subsection \<open>The four tests of \<open>isMatch\<close>\<close>

text \<open>
  C5. For every rule \<open>s\<close> and diagnostic \<open>d\<close>, \<open>isMatch\<close> answers true if and only if all
  four hold: the rule's \<open>errorId\<close> is empty or equal to the diagnostic's; its \<open>fileName\<close>
  is empty or equal to the diagnostic's; its \<open>lineNumber\<close> is \<open>\<le> 0\<close> or equal to the
  diagnostic's; its \<open>symbolName\<close> is empty or \<open>symbolName\<close> followed by a newline occurs as a
  substring of the diagnostic's \<open>symbolNames\<close>.
\<close>

theorem isMatch_iff:
  "fst (isMatch s d) \<longleftrightarrow>
     (Suppression.errorId s = [] \<or> Suppression.errorId s = ErrorMessage.errorId d) \<and>
     (Suppression.fileName s = [] \<or> Suppression.fileName s = ErrorMessage.fileName d) \<and>
     (Suppression.lineNumber s \<le> 0 \<or> Suppression.lineNumber s = ErrorMessage.lineNumber d) \<and>
     (symbolName s = [] \<or> (\<exists>pre post. symbolNames d = pre @ (symbolName s @ [newline]) @ post))"
  unfolding isMatch_def string_find_def
  using find_from_None_iff [of 0 "symbolNames d" "symbolName s @ [newline]"]
  by (auto simp add: not_less)

text \<open>What a call leaves behind: a failed match changes nothing, a match sets \<open>matched\<close>.\<close>

lemma isMatch_False_unchanged: "\<not> fst (isMatch s d) \<Longrightarrow> isMatch s d = (False, s)"
  by (auto simp: isMatch_def split: if_splits)

lemma isMatch_True_marks: "fst (isMatch s d) \<Longrightarrow> isMatch s d = (True, s\<lparr>matched := True\<rparr>)"
  by (auto simp: isMatch_def split: if_splits)

subsection \<open>The literal \<open>"*"\<close> as \<open>errorId\<close>\<close>

text \<open>
  C1. The claim is that a rule whose \<open>errorId\<close> is the literal \<open>"*"\<close> and whose other
  constraints are "any" matches every diagnostic, for \<open>isMatch\<close> and for \<open>isSuppressed\<close> on
  a list holding it. \<open>isMatch\<close> compares \<open>errorId\<close> as text, so against a diagnostic of kind
  \<open>nullPointer\<close> such a rule does not match: both calls answer false and the rule stays
  unmatched.
\<close>

theorem star_rule_does_not_match:
  "isMatch
     \<lparr>Suppression.errorId = ''*'', fileName = [], lineNumber = 0, symbolName = [], matched = False\<rparr>
     \<lparr>ErrorMessage.errorId = ''nullPointer'', fileName = ''a.c'', lineNumber = 5, symbolNames = []\<rparr>
   = (False,
      \<lparr>Suppression.errorId = ''*'', fileName = [], lineNumber = 0, symbolName = [], matched = False\<rparr>) \<and>
   isSuppressed
     \<lparr>ErrorMessage.errorId = ''nullPointer'', fileName = ''a.c'', lineNumber = 5, symbolNames = []\<rparr>
     [\<lparr>Suppression.errorId = ''*'', fileName = [], lineNumber = 0, symbolName = [], matched = False\<rparr>]
   = (False,
      [\<lparr>Suppression.errorId = ''*'', fileName = [], lineNumber = 0, symbolName = [], matched = False\<rparr>])"
  by (simp add: isMatch_def)

text \<open>
  In general a rule with \<open>errorId\<close> \<open>"*"\<close> matches only diagnostics whose own \<open>errorId\<close> is
  \<open>"*"\<close>, while the rule whose four constraints are all "any" for \<open>isMatch\<close> (the \<open>errorId\<close>
  empty) does match every diagnostic.
\<close>

lemma star_rule_matches_only_star:
  "Suppression.errorId s = ''*'' \<Longrightarrow> fst (isMatch s d) \<Longrightarrow> ErrorMessage.errorId d = ''*''"
  by (auto simp: isMatch_def split: if_splits)

lemma unconstrained_rule_matches:
  "Suppression.errorId s = [] \<Longrightarrow> Suppression.fileName s = [] \<Longrightarrow>
   Suppression.lineNumber s \<le> 0 \<Longrightarrow> symbolName s = [] \<Longrightarrow> fst (isMatch s d)"
  by (simp add: isMatch_def)

subsection \<open>The \<open>symbolName\<close> test and the entries of the symbol list\<close>

text \<open>
  Every entry of the symbol list is found by the test: the entry and the newline that ends
  it are a substring of the list.
\<close>

lemma split_entries_occurs:
  "x \<in> set (split_entries cur s) \<Longrightarrow> \<exists>pre post. rev cur @ s = pre @ (x @ [newline]) @ post"
proof (induction s arbitrary: cur)
  case Nil
  then show ?case by simp
next
  case (Cons c s)
  show ?case
  proof (cases "c = newline")
    case True
    with Cons.prems have "x = rev cur \<or> x \<in> set (split_entries [] s)" by simp
    then show ?thesis
    proof
      assume "x = rev cur"
      with True have "rev cur @ c # s = [] @ (x @ [newline]) @ s" by simp
      then show ?thesis by blast
    next
      assume "x \<in> set (split_entries [] s)"
      from Cons.IH [OF this] obtain pre post where "s = pre @ (x @ [newline]) @ post" by auto
      then have "rev cur @ c # s = (rev cur @ c # pre) @ (x @ [newline]) @ post" by simp
      then show ?thesis by blast
    qed
  next
    case False
    with Cons.prems have "x \<in> set (split_entries (c # cur) s)" by simp
    from Cons.IH [OF this] show ?thesis by simp
  qed
qed

lemma listed_symbol_found:
  assumes "name \<in> set (symbol_entries symbols)"
  shows "string_find symbols (name @ [newline]) \<noteq> None"
proof -
  from split_entries_occurs [of name "[]" symbols] assms
  have "\<exists>pre post. symbols = pre @ (name @ [newline]) @ post"
    by (simp add: symbol_entries_def)
  then show ?thesis
    by (simp add: string_find_def find_from_None_iff)
qed

text \<open>
  C3. The claim is that the \<open>symbolName\<close> test holds if and only if \<open>symbolName\<close> is a
  complete entry of the diagnostic's symbol list, so that no rule matches through a name
  that is not listed. The two examples of the claim hold: \<open>foo\<close> matches the list
  \<open>foo\<close>, \<open>bar\<close> and does not match the list \<open>foobar\<close>. But the test is a substring search
  for the name followed by a newline, which also finds the end of a longer entry: \<open>bar\<close>
  matches the list whose only entry is \<open>foobar\<close>.
\<close>

theorem symbolName_matches_entry_suffix:
  "fst (isMatch
     \<lparr>Suppression.errorId = [], fileName = [], lineNumber = 0, symbolName = ''bar'', matched = False\<rparr>
     \<lparr>ErrorMessage.errorId = ''nullPointer'', fileName = ''a.c'', lineNumber = 5,
      symbolNames = ''foobar'' @ [newline]\<rparr>) \<and>
   ''bar'' \<notin> set (symbol_entries (''foobar'' @ [newline])) \<and>
   fst (isMatch
     \<lparr>Suppression.errorId = [], fileName = [], lineNumber = 0, symbolName = ''foo'', matched = False\<rparr>
     \<lparr>ErrorMessage.errorId = ''nullPointer'', fileName = ''a.c'', lineNumber = 5,
      symbolNames = ''foo'' @ [newline] @ ''bar'' @ [newline]\<rparr>) \<and>
   \<not> fst (isMatch
     \<lparr>Suppression.errorId = [], fileName = [], lineNumber = 0, symbolName = ''foo'', matched = False\<rparr>
     \<lparr>ErrorMessage.errorId = ''nullPointer'', fileName = ''a.c'', lineNumber = 5,
      symbolNames = ''foobar'' @ [newline]\<rparr>)"
  by (simp add: isMatch_def string_find_def symbol_entries_def newline_def)

subsection \<open>\<open>isSuppressed\<close> and \<open>isSuppressedLocal\<close>\<close>

lemma isSuppressedLocal_eq: "isSuppressedLocal d ss = isSuppressed d ss"
  by (induction ss) (auto split: prod.splits bool.splits)

lemma isSuppressed_none:
  "\<forall>s \<in> set ss. \<not> fst (isMatch s d) \<Longrightarrow> isSuppressed d ss = (False, ss)"
proof (induction ss)
  case Nil
  show ?case by simp
next
  case (Cons a ss)
  then have "isMatch a d = (False, a)" by (intro isMatch_False_unchanged) simp
  moreover from Cons have "isSuppressed d ss = (False, ss)" by simp
  ultimately show ?case by simp
qed

lemma isSuppressed_first:
  "\<forall>x \<in> set pre. \<not> fst (isMatch x d) \<Longrightarrow> fst (isMatch s d) \<Longrightarrow>
     isSuppressed d (pre @ s # post) = (True, pre @ s\<lparr>matched := True\<rparr> # post)"
proof (induction pre)
  case Nil
  from Nil(2) have "isMatch s d = (True, s\<lparr>matched := True\<rparr>)" by (rule isMatch_True_marks)
  then show ?case by simp
next
  case (Cons a pre)
  from Cons.prems(1) have "isMatch a d = (False, a)" by (intro isMatch_False_unchanged) simp
  moreover from Cons
  have "isSuppressed d (pre @ s # post) = (True, pre @ s\<lparr>matched := True\<rparr> # post)" by simp
  ultimately show ?case by simp
qed

text \<open>
  C9. For every list of rules and every diagnostic, \<open>isSuppressedLocal\<close> and
  \<open>isSuppressed\<close> give the same answer and leave the same list. If no rule matches, the
  answer is false and the list is as before. If the list is \<open>pre @ s # post\<close> where no
  rule of \<open>pre\<close> matches and \<open>s\<close> does, the answer is true and the list afterwards differs
  only in that \<open>matched\<close> of this first matching rule is set: the rules before and after
  it, its other fields, the length and the order are as before.
\<close>

theorem isSuppressed_first_match:
  "isSuppressedLocal d ss = isSuppressed d ss \<and>
   ((\<forall>s \<in> set ss. \<not> fst (isMatch s d)) \<longrightarrow> isSuppressed d ss = (False, ss)) \<and>
   (\<forall>pre s post.
      ss = pre @ s # post \<and> (\<forall>x \<in> set pre. \<not> fst (isMatch x d)) \<and> fst (isMatch s d) \<longrightarrow>
      isSuppressed d ss = (True, pre @ s\<lparr>matched := True\<rparr> # post))"
proof (intro conjI allI impI)
  show "isSuppressedLocal d ss = isSuppressed d ss"
    by (rule isSuppressedLocal_eq)
next
  assume "\<forall>s \<in> set ss. \<not> fst (isMatch s d)"
  then show "isSuppressed d ss = (False, ss)"
    by (rule isSuppressed_none)
next
  fix pre s post
  assume "ss = pre @ s # post \<and> (\<forall>x \<in> set pre. \<not> fst (isMatch x d)) \<and> fst (isMatch s d)"
  then show "isSuppressed d ss = (True, pre @ s\<lparr>matched := True\<rparr> # post)"
    by (simp add: isSuppressed_first)
qed

text \<open>
  The theorem at work on the example of the specification: of three rules the second and
  the third match the \<open>nullPointer\<close> diagnostic and only the second gets marked; a second,
  unrelated diagnostic then changes no rule.
\<close>

theorem isSuppressed_first_match_witness:
  "isSuppressedLocal
     \<lparr>ErrorMessage.errorId = ''nullPointer'', fileName = ''a.c'', lineNumber = 5, symbolNames = []\<rparr>
     [\<lparr>Suppression.errorId = ''uninitvar'', fileName = [], lineNumber = 0, symbolName = [], matched = False\<rparr>,
      \<lparr>Suppression.errorId = ''nullPointer'', fileName = [], lineNumber = 0, symbolName = [], matched = False\<rparr>,
      \<lparr>Suppression.errorId = ''nullPointer'', fileName = ''a.c'', lineNumber = 5, symbolName = [], matched = False\<rparr>]
   = (True,
     [\<lparr>Suppression.errorId = ''uninitvar'', fileName = [], lineNumber = 0, symbolName = [], matched = False\<rparr>,
      \<lparr>Suppression.errorId = ''nullPointer'', fileName = [], lineNumber = 0, symbolName = [], matched = True\<rparr>,
      \<lparr>Suppression.errorId = ''nullPointer'', fileName = ''a.c'', lineNumber = 5, symbolName = [], matched = False\<rparr>]) \<and>
   isSuppressed
     \<lparr>ErrorMessage.errorId = ''memleak'', fileName = ''b.c'', lineNumber = 7, symbolNames = []\<rparr>
     [\<lparr>Suppression.errorId = ''uninitvar'', fileName = [], lineNumber = 0, symbolName = [], matched = False\<rparr>,
      \<lparr>Suppression.errorId = ''nullPointer'', fileName = [], lineNumber = 0, symbolName = [], matched = True\<rparr>]
   = (False,
     [\<lparr>Suppression.errorId = ''uninitvar'', fileName = [], lineNumber = 0, symbolName = [], matched = False\<rparr>,
      \<lparr>Suppression.errorId = ''nullPointer'', fileName = [], lineNumber = 0, symbolName = [], matched = True\<rparr>])"
proof -
  let ?d = "\<lparr>ErrorMessage.errorId = ''nullPointer'', fileName = ''a.c'', lineNumber = 5, symbolNames = []\<rparr>"
  let ?r1 = "\<lparr>Suppression.errorId = ''uninitvar'', fileName = [], lineNumber = 0, symbolName = [], matched = False\<rparr>"
  let ?r2 = "\<lparr>Suppression.errorId = ''nullPointer'', fileName = [], lineNumber = 0, symbolName = [], matched = False\<rparr>"
  let ?r3 = "\<lparr>Suppression.errorId = ''nullPointer'', fileName = ''a.c'', lineNumber = 5, symbolName = [], matched = False\<rparr>"
  let ?d2 = "\<lparr>ErrorMessage.errorId = ''memleak'', fileName = ''b.c'', lineNumber = 7, symbolNames = []\<rparr>"
  let ?r2' = "?r2\<lparr>matched := True\<rparr>"
  note first = isSuppressed_first_match [of ?d "[?r1, ?r2, ?r3]"]
  have hyp: "[?r1, ?r2, ?r3] = [?r1] @ ?r2 # [?r3] \<and>
      (\<forall>x \<in> set [?r1]. \<not> fst (isMatch x ?d)) \<and> fst (isMatch ?r2 ?d)"
    by (simp add: isMatch_def)
  have a: "isSuppressed ?d [?r1, ?r2, ?r3] = (True, [?r1] @ ?r2\<lparr>matched := True\<rparr> # [?r3])"
    by (rule first [THEN conjunct2, THEN conjunct2, rule_format, OF hyp])
  have b: "isSuppressedLocal ?d [?r1, ?r2, ?r3] = isSuppressed ?d [?r1, ?r2, ?r3]"
    by (rule first [THEN conjunct1])
  note second = isSuppressed_first_match [of ?d2 "[?r1, ?r2']"]
  have hyp2: "\<forall>s \<in> set [?r1, ?r2']. \<not> fst (isMatch s ?d2)"
    by (simp add: isMatch_def)
  have c: "isSuppressed ?d2 [?r1, ?r2'] = (False, [?r1, ?r2'])"
    by (rule second [THEN conjunct2, THEN conjunct1, THEN mp, OF hyp2])
  from a b c show ?thesis by simp
qed

section \<open>The glob matcher on the vectors of the specification\<close>

text \<open>
  C8. \<open>matchglob\<close> gives the answers the specification lists: \<open>*.cpp\<close> matches \<open>foo.cpp\<close>
  and not \<open>foo.cpp.bak\<close>, \<open>a?c\<close> matches \<open>abc\<close> and not \<open>ac\<close>, \<open>**\<close> matches \<open>anything\<close>,
  \<open>*\<close> matches the empty name, and \<open>abc\<close> does not match \<open>abcd\<close>. The function being
  total, each call returns.
\<close>

theorem matchglob_vectors:
  "matchglob ''*.cpp'' ''foo.cpp'' = True \<and>
   matchglob ''*.cpp'' ''foo.cpp.bak'' = False \<and>
   matchglob ''a?c'' ''abc'' = True \<and>
   matchglob ''a?c'' ''ac'' = False \<and>
   matchglob ''**'' ''anything'' = True \<and>
   matchglob ''*'' '''' = True \<and>
   matchglob ''abc'' ''abcd'' = False"
  by (simp add: matchglob_def c_str_def deref_def Let_def)

section \<open>The validator\<close>

text \<open>The character tests of the "C" locale, in terms of the characters themselves.\<close>

lemma char_eq_code: "c = d \<longleftrightarrow> (of_char c :: nat) = of_char d"
  by simp

lemma isdigit_iff: "isdigit c \<longleftrightarrow> c \<in> set ascii_digits"
proof -
  have "c \<in> set ascii_digits \<longleftrightarrow> (of_char c :: nat) \<in> {48, 49, 50, 51, 52, 53, 54, 55, 56, 57}"
    unfolding ascii_digits_def by (simp add: char_eq_code [of c])
  also have "\<dots> \<longleftrightarrow> 48 \<le> (of_char c :: nat) \<and> (of_char c :: nat) \<le> 57"
    by (simp only: insert_iff empty_iff) arith
  finally show ?thesis by (simp add: isdigit_def)
qed

lemma isalpha_iff: "isalpha c \<longleftrightarrow> c \<in> set ascii_letters"
proof -
  have "c \<in> set ascii_letters \<longleftrightarrow> (of_char c :: nat) \<in>
      {65, 66, 67, 68, 69, 70, 71, 72, 73, 74, 75, 76, 77, 78, 79, 80, 81, 82, 83, 84, 85, 86, 87,
       88, 89, 90, 97, 98, 99, 100, 101, 102, 103, 104, 105, 106, 107, 108, 109, 110, 111, 112,
       113, 114, 115, 116, 117, 118, 119, 120, 121, 122}"
    unfolding ascii_letters_def by (simp add: char_eq_code [of c])
  also have "\<dots> \<longleftrightarrow> (65 \<le> (of_char c :: nat) \<and> (of_char c :: nat) \<le> 90) \<or>
                (97 \<le> (of_char c :: nat) \<and> (of_char c :: nat) \<le> 122)"
    by (simp only: insert_iff empty_iff) arith
  finally show ?thesis by (simp add: isalpha_def)
qed

text \<open>The loop body lets a character pass exactly when it is a letter, a digit or \<open>_\<close>.\<close>

lemma errorId_loop_body:
  "\<not> (char_negative c \<or> (\<not> isalnum c \<and> c \<noteq> CHR ''_'')) \<longleftrightarrow>
     (c \<in> set ascii_letters \<or> c \<in> set ascii_digits \<or> c = CHR ''_'')"
proof -
  have "isalnum c \<Longrightarrow> \<not> char_negative c"
    by (auto simp: isalnum_def isalpha_def isdigit_def char_negative_def)
  moreover have "c = CHR ''_'' \<Longrightarrow> \<not> char_negative c"
    by (simp add: char_negative_def)
  moreover have "isalnum c \<longleftrightarrow> c \<in> set ascii_letters \<or> c \<in> set ascii_digits"
    by (simp add: isalnum_def isalpha_iff isdigit_iff)
  ultimately show ?thesis by blast
qed

lemma errorId_loop_rest:
  "errorId_loop (Suc pos) cs \<longleftrightarrow>
     list_all (\<lambda>x. x \<in> set ascii_letters \<or> x \<in> set ascii_digits \<or> x = CHR ''_'') cs"
proof (induction cs arbitrary: pos)
  case Nil
  show ?case by simp
next
  case (Cons c cs)
  show ?case
    using errorId_loop_body [of c] Cons.IH [of "Suc pos"] by auto
qed

lemma errorId_loop_first:
  "errorId_loop 0 (c # cs) \<longleftrightarrow> valid_identifier (c # cs)"
proof -
  have "isdigit c \<Longrightarrow> c \<notin> set ascii_letters \<and> c \<noteq> CHR ''_''"
    by (auto simp: isalpha_iff [symmetric] isalpha_def isdigit_def)
  moreover have "c \<in> set ascii_digits \<Longrightarrow> isdigit c"
    by (simp add: isdigit_iff)
  ultimately show ?thesis
    using errorId_loop_body [of c] errorId_loop_rest [of 0 cs]
    by (auto simp: valid_identifier_def)
qed

text \<open>
  C6. \<open>addSuppression\<close> returns the empty message and appends the record if and only if
  the record's \<open>errorId\<close> is the literal \<open>"*"\<close> or an identifier
  \<open>[A-Za-z_][A-Za-z0-9_]*\<close>. For every other \<open>errorId\<close> (the empty one, one that starts with
  a digit, one with any other character) it returns a message that is not empty and
  contains the \<open>errorId\<close>, and the list is as before.
\<close>

theorem addSuppression_accepts_iff:
  "(addSuppression s ss = ([], ss @ [s]) \<longleftrightarrow>
      Suppression.errorId s = ''*'' \<or> valid_identifier (Suppression.errorId s)) \<and>
   (if Suppression.errorId s = ''*'' \<or> valid_identifier (Suppression.errorId s)
    then addSuppression s ss = ([], ss @ [s])
    else fst (addSuppression s ss) \<noteq> [] \<and>
         (\<exists>pre post. fst (addSuppression s ss) = pre @ Suppression.errorId s @ post) \<and>
         snd (addSuppression s ss) = ss)"
proof (cases "Suppression.errorId s")
  case Nil
  have "''Failed to add suppression. No id.'' = ''Failed to add suppression. No id.'' @ [] @ []"
    by simp
  then have "\<exists>pre post. ''Failed to add suppression. No id.'' = pre @ [] @ (post :: string)"
    by blast
  with Nil show ?thesis
    by (simp add: addSuppression_def valid_identifier_def)
next
  case (Cons c cs)
  show ?thesis
  proof (cases "Suppression.errorId s = ''*'' \<or> valid_identifier (Suppression.errorId s)")
    case True
    with Cons errorId_loop_first [of c cs] show ?thesis
      by (auto simp: addSuppression_def)
  next
    case False
    with Cons errorId_loop_first [of c cs]
    have r: "addSuppression s ss =
        (''Failed to add suppression. Invalid id '' @ [CHR 0x22] @ Suppression.errorId s @ [CHR 0x22], ss)"
      by (auto simp: addSuppression_def)
    have "\<exists>pre post. fst (addSuppression s ss) = pre @ Suppression.errorId s @ post"
      unfolding r fst_conv
      by (intro exI [of _ "''Failed to add suppression. Invalid id '' @ [CHR 0x22]"]
            exI [of _ "[CHR 0x22]"]) simp
    with False r show ?thesis by auto
  qed
qed

text \<open>
  The theorem on three records: an identifier is appended, and an id that starts with a
  digit and the empty id are refused with the list left as it was.
\<close>

theorem addSuppression_accepts_iff_witness:
  "addSuppression
     \<lparr>Suppression.errorId = ''null_Pointer2'', fileName = [], lineNumber = 0, symbolName = [],
      matched = False\<rparr> []
   = ([], [\<lparr>Suppression.errorId = ''null_Pointer2'', fileName = [], lineNumber = 0, symbolName = [],
            matched = False\<rparr>]) \<and>
   snd (addSuppression
     \<lparr>Suppression.errorId = ''2bad'', fileName = [], lineNumber = 0, symbolName = [],
      matched = False\<rparr> []) = [] \<and>
   fst (addSuppression
     \<lparr>Suppression.errorId = ''2bad'', fileName = [], lineNumber = 0, symbolName = [],
      matched = False\<rparr> []) \<noteq> []"
proof -
  let ?good = "\<lparr>Suppression.errorId = ''null_Pointer2'', fileName = [], lineNumber = 0,
      symbolName = [], matched = False\<rparr>"
  let ?bad = "\<lparr>Suppression.errorId = ''2bad'', fileName = [], lineNumber = 0, symbolName = [],
      matched = False\<rparr>"
  have g: "Suppression.errorId ?good = ''*'' \<or> valid_identifier (Suppression.errorId ?good)"
    by (simp add: valid_identifier_def ascii_letters_def ascii_digits_def)
  have b: "\<not> (Suppression.errorId ?bad = ''*'' \<or> valid_identifier (Suppression.errorId ?bad))"
    by (simp add: valid_identifier_def ascii_letters_def ascii_digits_def)
  have "addSuppression ?good [] = ([], [] @ [?good])"
    using addSuppression_accepts_iff [of ?good "[]", THEN conjunct2] g
    by simp
  moreover have "fst (addSuppression ?bad []) \<noteq> [] \<and>
      (\<exists>pre post. fst (addSuppression ?bad []) = pre @ Suppression.errorId ?bad @ post) \<and>
      snd (addSuppression ?bad []) = []"
    using addSuppression_accepts_iff [of ?bad "[]", THEN conjunct2] b
    by simp
  ultimately show ?thesis by simp
qed

section \<open>The line format\<close>

subsection \<open>The stream and string operations on a line\<close>

lemma takeWhile_upto: "d \<notin> set e \<Longrightarrow> takeWhile (\<lambda>c. c \<noteq> d) (e @ d # r) = e"
  by (induction e) auto

lemma dropWhile_upto: "d \<notin> set e \<Longrightarrow> dropWhile (\<lambda>c. c \<noteq> d) (e @ d # r) = d # r"
  by (induction e) auto

lemma getline_upto_delim:
  "delim \<notin> set e \<Longrightarrow>
     getline \<lparr>unread = e @ delim # rest, good = True\<rparr> str delim =
       (True, e, \<lparr>unread = rest, good = True\<rparr>)"
  by (simp add: getline_def takeWhile_upto dropWhile_upto)

lemma getline_no_delim:
  "delim \<notin> set s \<Longrightarrow> s \<noteq> [] \<Longrightarrow>
     getline \<lparr>unread = s, good = True\<rparr> str delim = (True, s, \<lparr>unread = [], good = False\<rparr>)"
  by (simp add: getline_def)

lemma getline_empty:
  "getline \<lparr>unread = [], good = True\<rparr> str delim = (False, [], \<lparr>unread = [], good = False\<rparr>)"
  by (simp add: getline_def)

lemma getline_not_good:
  "getline \<lparr>unread = s, good = False\<rparr> str delim = (False, str, \<lparr>unread = s, good = False\<rparr>)"
  by (simp add: getline_def)

lemma rfind_char_none: "c \<notin> set s \<Longrightarrow> rfind_char s c = None"
  by (simp add: rfind_char_def)

lemma rfind_char_last:
  assumes "c \<notin> set b"
  shows "rfind_char (a @ c # b) c = Some (length a)"
proof -
  have "takeWhile (\<lambda>x. x \<noteq> c) (rev b @ c # rev a) = rev b"
    using assms by (intro takeWhile_upto) simp
  then show ?thesis by (simp add: rfind_char_def)
qed

lemma find_char_after: "find_char (a @ c # b) d (length a) = None \<longleftrightarrow> d \<noteq> c \<and> d \<notin> set b"
  by (auto simp: find_char_def)

text \<open>
  The extraction stores a positive value exactly when a positive number stands at the
  start of the text; a number beyond the \<open>int\<close> range is stored as the upper bound.
\<close>

lemma istream_extract_int_positive:
  "0 < fst (istream_extract_int s) \<longleftrightarrow> (\<exists>v. read_integer s = Some v \<and> 0 < v)"
  by (auto simp: istream_extract_int_def INT_MIN_def INT_MAX_def split: option.splits)

subsection \<open>The record \<open>addSuppressionLine\<close> hands to \<open>addSuppression\<close>\<close>

lemma line_number_part_no_colon:
  "CHR '':'' \<notin> set (Suppression.fileName s) \<Longrightarrow> line_number_part s = s"
  by (simp add: line_number_part_def rfind_char_none)

lemma line_number_part_colon:
  assumes "Suppression.fileName s = a @ CHR '':'' # b" and "CHR '':'' \<notin> set b"
  shows "line_number_part s =
     (if CHR ''.'' \<in> set b then s
      else if 0 < fst (istream_extract_int b)
        then s\<lparr>Suppression.lineNumber := fst (istream_extract_int b), Suppression.fileName := a\<rparr>
        else s\<lparr>Suppression.lineNumber := fst (istream_extract_int b)\<rparr>)"
  using assms
  by (simp add: line_number_part_def rfind_char_last find_char_after Let_def)

lemma addSuppressionLine_no_colon:
  assumes "CHR '':'' \<notin> set line"
  shows "addSuppressionLine line ss =
     addSuppression \<lparr>Suppression.errorId = line, fileName = [], lineNumber = 0, symbolName = [],
       matched = False\<rparr> ss"
proof (cases "line = []")
  case True
  then show ?thesis
    by (simp add: addSuppressionLine_def getline_empty default_Suppression_def fromNativeSeparators_def)
next
  case False
  with assms show ?thesis
    by (simp add: addSuppressionLine_def getline_no_delim getline_not_good default_Suppression_def
        fromNativeSeparators_def)
qed

lemma addSuppressionLine_colon:
  assumes "CHR '':'' \<notin> set e" and "newline \<notin> set rest"
  shows "addSuppressionLine (e @ CHR '':'' # rest) ss =
     addSuppression
       ((line_number_part \<lparr>Suppression.errorId = e, fileName = rest, lineNumber = 0, symbolName = [],
           matched = False\<rparr>)
        \<lparr>Suppression.fileName := fromNativeSeparators (Suppression.fileName
           (line_number_part \<lparr>Suppression.errorId = e, fileName = rest, lineNumber = 0, symbolName = [],
              matched = False\<rparr>))\<rparr>) ss"
proof (cases "rest = []")
  case True
  with assms show ?thesis
    by (simp add: addSuppressionLine_def getline_upto_delim getline_empty default_Suppression_def
        line_number_part_no_colon)
next
  case False
  with assms show ?thesis
    by (simp add: addSuppressionLine_def getline_upto_delim getline_no_delim default_Suppression_def
        Let_def)
qed

lemmas addSuppressionLine_eval =
  addSuppressionLine_def getline_def default_Suppression_def line_number_part_def rfind_char_def
  find_char_def istream_extract_int_def read_integer_def isspace_def isdigit_def INT_MAX_def
  INT_MIN_def fromNativeSeparators_def addSuppression_def char_negative_def isalnum_def isalpha_def
  newline_def

text \<open>
  Case by case, on a single line: \<open>addSuppressionLine\<close> splits the line at its first
  colon into \<open>errorId\<close> and the
  remainder; a line without colon is all \<open>errorId\<close>. A remainder without colon is the
  \<open>fileName\<close>. In a remainder \<open>a:b\<close> with no further colon in \<open>b\<close>: if \<open>b\<close> has a dot, the
  whole remainder is the \<open>fileName\<close> and there is no line number; if not, the integer is
  extracted from \<open>b\<close>, and when it is positive it is the \<open>lineNumber\<close> and \<open>a\<close> is the
  \<open>fileName\<close>, otherwise the whole remainder stays the \<open>fileName\<close> and the \<open>lineNumber\<close> is
  not positive, which is "any". The \<open>fileName\<close> goes through \<open>fromNativeSeparators\<close>, and the
  record goes to \<open>addSuppression\<close>. The lines are single lines: the remainder has no
  newline. In particular \<open>uninitvar:foo.c:10\<close> gives \<open>errorId\<close> \<open>uninitvar\<close>, \<open>fileName\<close>
  \<open>foo.c\<close> and \<open>lineNumber\<close> 10, and \<open>uninitvar:C:path.c\<close> keeps the \<open>fileName\<close> \<open>C:path.c\<close>
  with no line number.
\<close>

lemma addSuppressionLine_fields:
  "(CHR '':'' \<notin> set line \<longrightarrow>
      addSuppressionLine line ss =
        addSuppression \<lparr>Suppression.errorId = line, fileName = [], lineNumber = 0, symbolName = [],
          matched = False\<rparr> ss) \<and>
   (CHR '':'' \<notin> set e \<and> CHR '':'' \<notin> set rest \<and> newline \<notin> set rest \<longrightarrow>
      addSuppressionLine (e @ CHR '':'' # rest) ss =
        addSuppression \<lparr>Suppression.errorId = e, fileName = fromNativeSeparators rest, lineNumber = 0,
          symbolName = [], matched = False\<rparr> ss) \<and>
   (CHR '':'' \<notin> set e \<and> CHR '':'' \<notin> set b \<and> newline \<notin> set a \<and> newline \<notin> set b \<longrightarrow>
      addSuppressionLine (e @ CHR '':'' # a @ CHR '':'' # b) ss =
        addSuppression
          (if CHR ''.'' \<in> set b then
             \<lparr>Suppression.errorId = e, fileName = fromNativeSeparators (a @ CHR '':'' # b),
              lineNumber = 0, symbolName = [], matched = False\<rparr>
           else if 0 < fst (istream_extract_int b) then
             \<lparr>Suppression.errorId = e, fileName = fromNativeSeparators a,
              lineNumber = fst (istream_extract_int b), symbolName = [], matched = False\<rparr>
           else
             \<lparr>Suppression.errorId = e, fileName = fromNativeSeparators (a @ CHR '':'' # b),
              lineNumber = fst (istream_extract_int b), symbolName = [], matched = False\<rparr>) ss) \<and>
   addSuppressionLine ''uninitvar:foo.c:10'' ss =
     ([], ss @ [\<lparr>Suppression.errorId = ''uninitvar'', fileName = ''foo.c'', lineNumber = 10,
                 symbolName = [], matched = False\<rparr>]) \<and>
   addSuppressionLine ''uninitvar:C:path.c'' ss =
     ([], ss @ [\<lparr>Suppression.errorId = ''uninitvar'', fileName = ''C:path.c'', lineNumber = 0,
                 symbolName = [], matched = False\<rparr>])"
proof (intro conjI impI)
  assume "CHR '':'' \<notin> set line"
  then show "addSuppressionLine line ss =
      addSuppression \<lparr>Suppression.errorId = line, fileName = [], lineNumber = 0, symbolName = [],
        matched = False\<rparr> ss"
    by (rule addSuppressionLine_no_colon)
next
  assume h: "CHR '':'' \<notin> set e \<and> CHR '':'' \<notin> set rest \<and> newline \<notin> set rest"
  then have "addSuppressionLine (e @ CHR '':'' # rest) ss = addSuppression
       ((line_number_part \<lparr>Suppression.errorId = e, fileName = rest, lineNumber = 0, symbolName = [],
           matched = False\<rparr>)
        \<lparr>Suppression.fileName := fromNativeSeparators (Suppression.fileName
           (line_number_part \<lparr>Suppression.errorId = e, fileName = rest, lineNumber = 0, symbolName = [],
              matched = False\<rparr>))\<rparr>) ss"
    by (intro addSuppressionLine_colon) simp_all
  with h show "addSuppressionLine (e @ CHR '':'' # rest) ss =
        addSuppression \<lparr>Suppression.errorId = e, fileName = fromNativeSeparators rest, lineNumber = 0,
          symbolName = [], matched = False\<rparr> ss"
    by (simp add: line_number_part_no_colon)
next
  assume h: "CHR '':'' \<notin> set e \<and> CHR '':'' \<notin> set b \<and> newline \<notin> set a \<and> newline \<notin> set b"
  let ?s = "\<lparr>Suppression.errorId = e, fileName = a @ CHR '':'' # b, lineNumber = 0, symbolName = [],
           matched = False\<rparr>"
  have nl: "newline \<notin> set (a @ CHR '':'' # b)" using h by (simp add: newline_def)
  have "addSuppressionLine (e @ CHR '':'' # a @ CHR '':'' # b) ss = addSuppression
       ((line_number_part ?s)
        \<lparr>Suppression.fileName := fromNativeSeparators (Suppression.fileName (line_number_part ?s))\<rparr>) ss"
    using h nl by (intro addSuppressionLine_colon) simp_all
  moreover have "line_number_part ?s =
     (if CHR ''.'' \<in> set b then ?s
      else if 0 < fst (istream_extract_int b)
        then ?s\<lparr>Suppression.lineNumber := fst (istream_extract_int b), Suppression.fileName := a\<rparr>
        else ?s\<lparr>Suppression.lineNumber := fst (istream_extract_int b)\<rparr>)"
    using h by (intro line_number_part_colon) simp_all
  ultimately show "addSuppressionLine (e @ CHR '':'' # a @ CHR '':'' # b) ss =
        addSuppression
          (if CHR ''.'' \<in> set b then
             \<lparr>Suppression.errorId = e, fileName = fromNativeSeparators (a @ CHR '':'' # b),
              lineNumber = 0, symbolName = [], matched = False\<rparr>
           else if 0 < fst (istream_extract_int b) then
             \<lparr>Suppression.errorId = e, fileName = fromNativeSeparators a,
              lineNumber = fst (istream_extract_int b), symbolName = [], matched = False\<rparr>
           else
             \<lparr>Suppression.errorId = e, fileName = fromNativeSeparators (a @ CHR '':'' # b),
              lineNumber = fst (istream_extract_int b), symbolName = [], matched = False\<rparr>) ss"
    by simp
next
  show "addSuppressionLine ''uninitvar:foo.c:10'' ss =
     ([], ss @ [\<lparr>Suppression.errorId = ''uninitvar'', fileName = ''foo.c'', lineNumber = 10,
                 symbolName = [], matched = False\<rparr>])"
    by (simp add: addSuppressionLine_eval)
next
  show "addSuppressionLine ''uninitvar:C:path.c'' ss =
     ([], ss @ [\<lparr>Suppression.errorId = ''uninitvar'', fileName = ''C:path.c'', lineNumber = 0,
                 symbolName = [], matched = False\<rparr>])"
    by (simp add: addSuppressionLine_eval)
qed

text \<open>
  The cases on four lines: one without colon, one with a file name only, one with a
  line number, and one whose last part is no number.
\<close>

lemma addSuppressionLine_fields_on_lines:
  "addSuppressionLine ''unusedFunction'' []
     = ([], [\<lparr>Suppression.errorId = ''unusedFunction'', fileName = [], lineNumber = 0,
              symbolName = [], matched = False\<rparr>]) \<and>
   addSuppressionLine ''memleak:src/a.c'' []
     = ([], [\<lparr>Suppression.errorId = ''memleak'', fileName = ''src/a.c'', lineNumber = 0,
              symbolName = [], matched = False\<rparr>]) \<and>
   addSuppressionLine ''memleak:src/a.c:42'' []
     = ([], [\<lparr>Suppression.errorId = ''memleak'', fileName = ''src/a.c'', lineNumber = 42,
              symbolName = [], matched = False\<rparr>]) \<and>
   addSuppressionLine ''memleak:src/a.c:x'' []
     = ([], [\<lparr>Suppression.errorId = ''memleak'', fileName = ''src/a.c:x'', lineNumber = 0,
              symbolName = [], matched = False\<rparr>])"
proof -
  note one = addSuppressionLine_fields [where line = "''unusedFunction''" and e = "''memleak''"
      and rest = "''src/a.c''" and a = "''src/a.c''" and b = "''42''" and ss = "[]"]
  note two = addSuppressionLine_fields [where e = "''memleak''" and a = "''src/a.c''" and b = "''x''"
      and ss = "[]"]
  have h1: "CHR '':'' \<notin> set ''unusedFunction''"
    by simp
  have h2: "CHR '':'' \<notin> set ''memleak'' \<and> CHR '':'' \<notin> set ''src/a.c'' \<and> newline \<notin> set ''src/a.c''"
    by (simp add: newline_def)
  have h3: "CHR '':'' \<notin> set ''memleak'' \<and> CHR '':'' \<notin> set ''42'' \<and> newline \<notin> set ''src/a.c'' \<and>
      newline \<notin> set ''42''"
    by (simp add: newline_def)
  have h4: "CHR '':'' \<notin> set ''memleak'' \<and> CHR '':'' \<notin> set ''x'' \<and> newline \<notin> set ''src/a.c'' \<and>
      newline \<notin> set ''x''"
    by (simp add: newline_def)
  note r1 = one [THEN conjunct1, THEN mp, OF h1]
  note r2 = one [THEN conjunct2, THEN conjunct1, THEN mp, OF h2]
  note r3 = one [THEN conjunct2, THEN conjunct2, THEN conjunct1, THEN mp, OF h3]
  note r4 = two [THEN conjunct2, THEN conjunct2, THEN conjunct1, THEN mp, OF h4]
  have e1: "addSuppressionLine ''unusedFunction'' []
     = ([], [\<lparr>Suppression.errorId = ''unusedFunction'', fileName = [], lineNumber = 0,
              symbolName = [], matched = False\<rparr>])"
    unfolding r1 by (simp add: addSuppression_def char_negative_def isalnum_def isalpha_def isdigit_def)
  have e2: "addSuppressionLine ''memleak:src/a.c'' []
     = ([], [\<lparr>Suppression.errorId = ''memleak'', fileName = ''src/a.c'', lineNumber = 0,
              symbolName = [], matched = False\<rparr>])"
    using r2 by (simp add: addSuppression_def char_negative_def isalnum_def isalpha_def isdigit_def
        fromNativeSeparators_def)
  have e3: "addSuppressionLine ''memleak:src/a.c:42'' []
     = ([], [\<lparr>Suppression.errorId = ''memleak'', fileName = ''src/a.c'', lineNumber = 42,
              symbolName = [], matched = False\<rparr>])"
    using r3 by (simp add: addSuppression_def char_negative_def isalnum_def isalpha_def isdigit_def
        fromNativeSeparators_def istream_extract_int_def read_integer_def isspace_def INT_MAX_def INT_MIN_def)
  have e4: "addSuppressionLine ''memleak:src/a.c:x'' []
     = ([], [\<lparr>Suppression.errorId = ''memleak'', fileName = ''src/a.c:x'', lineNumber = 0,
              symbolName = [], matched = False\<rparr>])"
    using r4 by (simp add: addSuppression_def char_negative_def isalnum_def isalpha_def isdigit_def
        fromNativeSeparators_def istream_extract_int_def read_integer_def isspace_def INT_MAX_def INT_MIN_def)
  from e1 e2 e3 e4 show ?thesis by simp
qed

text \<open>
  What the stream extraction makes of other texts after the last colon: a number followed
  by other characters is read up to them, and a negative number leaves the \<open>fileName\<close>
  whole and the \<open>lineNumber\<close> "any".
\<close>

lemma addSuppressionLine_extraction_examples:
  "addSuppressionLine ''uninitvar:foo.c:10abc'' ss =
     ([], ss @ [\<lparr>Suppression.errorId = ''uninitvar'', fileName = ''foo.c'', lineNumber = 10,
                 symbolName = [], matched = False\<rparr>]) \<and>
   addSuppressionLine ''uninitvar:foo.c:-5'' ss =
     ([], ss @ [\<lparr>Suppression.errorId = ''uninitvar'', fileName = ''foo.c:-5'', lineNumber = - 5,
                 symbolName = [], matched = False\<rparr>])"
  by (simp add: addSuppressionLine_eval)

text \<open>
  C7. The claim is that \<open>addSuppressionLine\<close> splits the line at its first colon into
  \<open>errorId\<close> and the remainder, and that, when the last colon of the remainder has no dot
  after it, what follows that colon is parsed as an integer and becomes the \<open>lineNumber\<close>,
  cut off the \<open>fileName\<close>, only if the parse succeeds with a value greater than 0; otherwise the
  \<open>fileName\<close> keeps the whole remainder and the \<open>lineNumber\<close> stays "any". On the line
  \<open>uninitvar:foo.c:99999999999\<close> the extraction fails, the number being beyond the \<open>int\<close>
  range (\<open>failbit\<close> is set, and the largest \<open>int\<close> is stored), yet the \<open>lineNumber\<close> becomes
  2147483647 and the \<open>fileName\<close> is cut to \<open>foo.c\<close>: the source tests the stored value and
  never the state of the stream.
\<close>

theorem addSuppressionLine_failed_extraction:
  "istream_extract_int ''99999999999'' = (2147483647, True) \<and>
   addSuppressionLine ''uninitvar:foo.c:99999999999'' [] =
     ([], [\<lparr>Suppression.errorId = ''uninitvar'', fileName = ''foo.c'', lineNumber = 2147483647,
            symbolName = [], matched = False\<rparr>])"
  by (simp add: addSuppressionLine_eval)

section \<open>The XML format\<close>

lemma strcmp_eq_0: "strcmp a b = 0 \<longleftrightarrow> a = b"
  by (induction a b rule: strcmp.induct) auto

lemma last_text_Nil: "last_text tag [] = None"
  by (simp add: last_text_def)

lemma last_text_Cons:
  "last_text tag (e # es) =
     (case last_text tag es of
        Some t \<Rightarrow> Some t
      | None \<Rightarrow> if Name e = tag then Some (element_text e) else None)"
  by (auto simp: last_text_def split: list.splits)

text \<open>The inner loop fills the record as the specification says.\<close>

lemma parseXmlFile_fields_populated: "parseXmlFile_fields es s = populated_from s es"
proof (induction es arbitrary: s)
  case Nil
  show ?case by (simp add: populated_from_def last_text_Nil)
next
  case (Cons e es)
  show ?case
    by (simp add: Cons.IH strcmp_eq_0 populated_from_def last_text_Cons element_text_def Let_def
        split: option.splits)
qed

text \<open>
  The outer loop hands the records of the children that are not named \<open>suppress\<close> to
  \<open>addSuppression\<close>, in document order, each call on the list the call before has left.
\<close>

lemma parseXmlFile_children_fold:
  "parseXmlFile_children es ss =
     foldl (\<lambda>acc e. snd (addSuppression (populated e) acc)) ss
       (filter (\<lambda>e. Name e \<noteq> ''suppress'') es)"
  by (induction es arbitrary: ss)
     (simp_all add: strcmp_eq_0 parseXmlFile_fields_populated populated_def)

text \<open>
  C2. In \<open>parseXmlFile\<close>, once the file is found and the document has a root, the list
  returned is what results from passing to \<open>addSuppression\<close>, one after the other, the
  record populated from the sub-elements \<open>id\<close>, \<open>fileName\<close>, \<open>lineNumber\<close> and \<open>symbolName\<close>
  of each child of the root whose tag name is not \<open>suppress\<close>; the children that are named
  \<open>suppress\<close> are skipped. The message returned is empty.
\<close>

theorem parseXmlFile_processes_other_tags:
  "LoadFile doc \<noteq> XML_ERROR_FILE_NOT_FOUND \<and> FirstChildElement doc = Some rootnode \<longrightarrow>
     parseXmlFile doc ss =
       Inr ([], foldl (\<lambda>acc e. snd (addSuppression (populated e) acc)) ss
                  (filter (\<lambda>e. Name e \<noteq> ''suppress'') (ChildElements rootnode)))"
  by (simp add: parseXmlFile_def parseXmlFile_children_fold)

text \<open>
  The theorem on a document with one \<open>suppress\<close> element and one element of another name:
  only the latter becomes a rule.
\<close>

theorem parseXmlFile_processes_other_tags_witness:
  "parseXmlFile
     \<lparr>LoadFile = XML_SUCCESS,
      FirstChildElement = Some (XMLElement ''suppressions'' None
        [XMLElement ''suppress'' None [XMLElement ''id'' (Some ''uninitvar'') []],
         XMLElement ''other'' None
           [XMLElement ''id'' (Some ''memleak'') [], XMLElement ''lineNumber'' (Some ''12'') [],
            XMLElement ''fileName'' (Some ''a.c'') [], XMLElement ''symbolName'' (Some ''p'') []]])\<rparr> []
   = Inr ([], [\<lparr>Suppression.errorId = ''memleak'', fileName = ''a.c'', lineNumber = 12,
                symbolName = ''p'', matched = False\<rparr>])"
proof -
  let ?root = "XMLElement ''suppressions'' None
        [XMLElement ''suppress'' None [XMLElement ''id'' (Some ''uninitvar'') []],
         XMLElement ''other'' None
           [XMLElement ''id'' (Some ''memleak'') [], XMLElement ''lineNumber'' (Some ''12'') [],
            XMLElement ''fileName'' (Some ''a.c'') [], XMLElement ''symbolName'' (Some ''p'') []]]"
  let ?doc = "\<lparr>LoadFile = XML_SUCCESS, FirstChildElement = Some ?root\<rparr>"
  have hyp: "LoadFile ?doc \<noteq> XML_ERROR_FILE_NOT_FOUND \<and> FirstChildElement ?doc = Some ?root"
    by simp
  from parseXmlFile_processes_other_tags [of ?doc ?root "[]", THEN mp, OF hyp]
  show ?thesis
    by (simp add: populated_def populated_from_def last_text_def element_text_def
        default_Suppression_def addSuppression_def atoi_def read_integer_def
        isspace_def isdigit_def char_negative_def isalnum_def isalpha_def)
qed

text \<open>
  C4. The claim is that \<open>parseXmlFile\<close> returns \<open>File not found\<close> for a missing file and
  the empty message otherwise, and that with the empty message every rule of the document
  has been appended. On the document that holds the one rule
  \<open><suppress><id>uninitvar</id></suppress>\<close> the empty message is returned and the list
  stays empty. The same happens to an element that is processed but whose \<open>id\<close> the
  validator refuses: the message of \<open>addSuppression\<close> is dropped, the empty message is
  returned and nothing is appended.
\<close>

theorem parseXmlFile_drops_rules:
  "parseXmlFile
     \<lparr>LoadFile = XML_SUCCESS,
      FirstChildElement = Some (XMLElement ''suppressions'' None
        [XMLElement ''suppress'' None [XMLElement ''id'' (Some ''uninitvar'') []]])\<rparr> []
   = Inr ([], []) \<and>
   parseXmlFile
     \<lparr>LoadFile = XML_SUCCESS,
      FirstChildElement = Some (XMLElement ''suppressions'' None
        [XMLElement ''rule'' None [XMLElement ''id'' (Some ''1bad'') []]])\<rparr> []
   = Inr ([], []) \<and>
   fst (addSuppression
     \<lparr>Suppression.errorId = ''1bad'', fileName = [], lineNumber = 0, symbolName = [],
      matched = False\<rparr> []) \<noteq> []"
  by (simp add: parseXmlFile_def strcmp_eq_0 default_Suppression_def addSuppression_def
      char_negative_def isalnum_def isalpha_def isdigit_def)

text \<open>
  C10. When the load reports anything but "file not found" and the document has no root
  element (\<open>doc.FirstChildElement()\<close> is the null pointer, as for an empty file),
  \<open>parseXmlFile\<close> returns no message: it dereferences the null pointer. The only message
  other than the empty one that it ever returns is \<open>File not found\<close>, and it returns it
  only when the load reports that the file is not found.
\<close>

theorem parseXmlFile_null_root:
  "(LoadFile doc \<noteq> XML_ERROR_FILE_NOT_FOUND \<and> FirstChildElement doc = None \<longrightarrow>
      parseXmlFile doc ss = Inl NullPointerDereference) \<and>
   (\<forall>msg ss'. parseXmlFile doc ss = Inr (msg, ss') \<and> msg \<noteq> [] \<longrightarrow>
      LoadFile doc = XML_ERROR_FILE_NOT_FOUND \<and> msg = ''File not found'' \<and> ss' = ss)"
  by (auto simp: parseXmlFile_def split: if_splits option.splits)

text \<open>The theorem on an empty file: the load reports an empty document, and there is no root.\<close>

theorem parseXmlFile_null_root_witness:
  "parseXmlFile \<lparr>LoadFile = XML_ERROR_EMPTY_DOCUMENT, FirstChildElement = None\<rparr> []
     = Inl NullPointerDereference"
proof -
  let ?doc = "\<lparr>LoadFile = XML_ERROR_EMPTY_DOCUMENT, FirstChildElement = None\<rparr>"
  have hyp: "LoadFile ?doc \<noteq> XML_ERROR_FILE_NOT_FOUND \<and> FirstChildElement ?doc = None"
    by simp
  show ?thesis
    by (rule parseXmlFile_null_root [of ?doc "[]", THEN conjunct1, THEN mp, OF hyp])
qed

end
